theory Spec2Isabelle
  imports Main "HOL-Library.Char_ord" "HOL-Library.List_Lexorder" "HOL-Library.AList"
begin

section \<open>Python text primitives\<close>

text \<open>
  Text is a list of 8-bit characters. The archives hold ASCII (digits, signs, commas,
  line ends), and the classification functions below are Python's on that range;
  characters from 128 on are inert (neither space, digit, line end nor letter).
\<close>

definition is_space :: "char \<Rightarrow> bool" where
  "is_space c = ((9 \<le> (of_char c :: int) \<and> (of_char c :: int) \<le> 13) \<or>
      (28 \<le> (of_char c :: int) \<and> (of_char c :: int) \<le> 32))"

definition lstrip :: "string \<Rightarrow> string" where
  "lstrip s = dropWhile is_space s"

definition rstrip :: "string \<Rightarrow> string" where
  "rstrip s = rev (dropWhile is_space (rev s))"

definition strip :: "string \<Rightarrow> string" where
  "strip s = rstrip (lstrip s)"

text \<open>\<^verbatim>\<open>s.split(sep)\<close> for a one-character separator: never an empty list.\<close>

fun split_on :: "char \<Rightarrow> string \<Rightarrow> string list" where
  "split_on sep [] = [[]]"
| "split_on sep (x # xs) =
     (if x = sep then [] # split_on sep xs
      else (case split_on sep xs of
              [] \<Rightarrow> [[x]]
            | y # ys \<Rightarrow> (x # y) # ys))"

text \<open>\<^verbatim>\<open>sep.join(parts)\<close>.\<close>

fun join :: "string \<Rightarrow> string list \<Rightarrow> string" where
  "join sep [] = []"
| "join sep [p] = p"
| "join sep (p # q # ps) = p @ sep @ join sep (q # ps)"

definition is_linebreak :: "char \<Rightarrow> bool" where
  "is_linebreak c = ((10 \<le> (of_char c :: int) \<and> (of_char c :: int) \<le> 13) \<or>
      (28 \<le> (of_char c :: int) \<and> (of_char c :: int) \<le> 30))"

text \<open>
  \<^verbatim>\<open>s.splitlines()\<close>: a line ends at a line-break character, CR LF counts once, and
  a final line end opens no empty last line.
\<close>

fun splitlines_acc :: "string \<Rightarrow> string \<Rightarrow> string list" where
  "splitlines_acc acc [] = (if acc = [] then [] else [rev acc])"
| "splitlines_acc acc (x # xs) =
     (if x = CHR 0x0D \<and> xs \<noteq> [] \<and> hd xs = CHR 0x0A
        then rev acc # splitlines_acc [] (tl xs)
      else if is_linebreak x then rev acc # splitlines_acc [] xs
      else splitlines_acc (x # acc) xs)"

definition splitlines :: "string \<Rightarrow> string list" where
  "splitlines s = splitlines_acc [] s"

definition lower_char :: "char \<Rightarrow> char" where
  "lower_char c = (if 65 \<le> (of_char c :: int) \<and> (of_char c :: int) \<le> 90
                   then char_of ((of_char c :: int) + 32) else c)"

definition upper_char :: "char \<Rightarrow> char" where
  "upper_char c = (if 97 \<le> (of_char c :: int) \<and> (of_char c :: int) \<le> 122
                   then char_of ((of_char c :: int) - 32) else c)"

definition lower :: "string \<Rightarrow> string" where
  "lower s = map lower_char s"

definition upper :: "string \<Rightarrow> string" where
  "upper s = map upper_char s"

definition is_digit :: "char \<Rightarrow> bool" where
  "is_digit c = (48 \<le> (of_char c :: int) \<and> (of_char c :: int) \<le> 57)"

text \<open>\<^verbatim>\<open>s.isdigit()\<close>: false on the empty string.\<close>

definition isdigit :: "string \<Rightarrow> bool" where
  "isdigit s = (s \<noteq> [] \<and> list_all is_digit s)"

text \<open>
  \<^verbatim>\<open>s.replace(old, new)\<close> for a non-empty \<open>old\<close>: every occurrence, left to right,
  without overlap.
\<close>

function replace :: "string \<Rightarrow> string \<Rightarrow> string \<Rightarrow> string" where
  "replace old new s =
     (if old = [] \<or> s = [] then s
      else if take (length old) s = old
        then new @ replace old new (drop (length old) s)
      else hd s # replace old new (tl s))"
  by pat_completeness auto
termination
  by (relation "measure (\<lambda>(old, new, s). length s)") auto

subsection \<open>Integers as text\<close>

datatype py_error =
    ValueError | IndexError | OverflowError | OSError
  | FileNotFoundError | BadZipFile | UnicodeDecodeError

definition digit_val :: "char \<Rightarrow> int" where
  "digit_val c = (of_char c :: int) - 48"

text \<open>
  The digits of a decimal literal as \<^verbatim>\<open>int()\<close> reads it: one underscore may stand
  between two digits.
\<close>

fun int_digits :: "string \<Rightarrow> string option" where
  "int_digits [] = None"
| "int_digits [c] = (if is_digit c then Some [c] else None)"
| "int_digits (c # d # cs) =
     (if \<not> is_digit c then None
      else if d = CHR ''_'' then map_option (Cons c) (int_digits cs)
      else map_option (Cons c) (int_digits (d # cs)))"

definition digits_value :: "string \<Rightarrow> int" where
  "digits_value ds = foldl (\<lambda>a c. 10 * a + digit_val c) 0 ds"

text \<open>
  The interpreter's limit on integer texts (\<^verbatim>\<open>sys.int_max_str_digits\<close>, 4300 by
  default): more digits raise ValueError.
\<close>

definition parse_nat :: "string \<Rightarrow> int option" where
  "parse_nat s =
     (case int_digits s of
        None \<Rightarrow> None
      | Some ds \<Rightarrow> if 4300 < length ds then None else Some (digits_value ds))"

text \<open>
  The whitespace \<^verbatim>\<open>int()\<close> skips around the number in an ASCII text: tab, line
  feed, vertical tab, form feed, carriage return and blank (fewer characters than
  \<^verbatim>\<open>str.strip\<close> drops).
\<close>

definition is_c_space :: "char \<Rightarrow> bool" where
  "is_c_space c = ((9 \<le> (of_char c :: int) \<and> (of_char c :: int) \<le> 13) \<or> (of_char c :: int) = 32)"

definition c_strip :: "string \<Rightarrow> string" where
  "c_strip s = rev (dropWhile is_c_space (rev (dropWhile is_c_space s)))"

text \<open>
  \<^verbatim>\<open>int(s)\<close> on text: that whitespace is skipped, one sign is allowed, and anything
  else raises ValueError.
\<close>

definition py_int :: "string \<Rightarrow> py_error + int" where
  "py_int s =
     (case c_strip s of
        [] \<Rightarrow> Inl ValueError
      | c # cs \<Rightarrow>
          (if c = CHR ''-'' then
             (case parse_nat cs of None \<Rightarrow> Inl ValueError | Some n \<Rightarrow> Inr (- n))
           else if c = CHR ''+'' then
             (case parse_nat cs of None \<Rightarrow> Inl ValueError | Some n \<Rightarrow> Inr n)
           else
             (case parse_nat (c # cs) of None \<Rightarrow> Inl ValueError | Some n \<Rightarrow> Inr n)))"

definition digit_char :: "int \<Rightarrow> char" where
  "digit_char n = char_of (48 + n mod 10)"

text \<open>The decimal digits of a number that is not negative.\<close>

function digits_of :: "int \<Rightarrow> string" where
  "digits_of n = (if n < 10 then [digit_char n]
                  else digits_of (n div 10) @ [digit_char (n mod 10)])"
  by pat_completeness auto
termination
  by (relation "measure nat") auto

declare digits_of.simps [simp del]
declare replace.simps [simp del]

text \<open>\<^verbatim>\<open>str(i)\<close> for an integer.\<close>

definition str_int :: "int \<Rightarrow> string" where
  "str_int i = (if i < 0 then CHR ''-'' # digits_of (- i) else digits_of i)"

text \<open>Zero padding to a width, as \<^verbatim>\<open>%02d\<close> does.\<close>

definition zpad :: "nat \<Rightarrow> int \<Rightarrow> string" where
  "zpad w i = replicate (w - length (str_int i)) CHR ''0'' @ str_int i"


section \<open>Calendar and clock (the \<^verbatim>\<open>datetime\<close> library)\<close>

text \<open>
  The proleptic Gregorian calendar of \<^verbatim>\<open>datetime\<close>, counted in days from
  1970-01-01. Timestamps are whole seconds; a millisecond epoch \<open>ms\<close> reaches the
  library as \<^verbatim>\<open>ms / 1000\<close>, whose calendar fields are those of the second
  \<open>ms div 1000\<close> (rounded down). The host's time zone is a fixed offset \<open>tz\<close>, in
  seconds east of UTC.
\<close>

record datetime =
  dt_year :: int
  dt_month :: int
  dt_day :: int
  dt_hour :: int
  dt_minute :: int
  dt_second :: int

definition is_leap :: "int \<Rightarrow> bool" where
  "is_leap y = (y mod 4 = 0 \<and> (y mod 100 \<noteq> 0 \<or> y mod 400 = 0))"

definition days_in_month :: "int \<Rightarrow> int \<Rightarrow> int" where
  "days_in_month y m =
     (if m = 2 then (if is_leap y then 29 else 28)
      else if m = 4 \<or> m = 6 \<or> m = 9 \<or> m = 11 then 30 else 31)"

definition days_from_civil :: "int \<Rightarrow> int \<Rightarrow> int \<Rightarrow> int" where
  "days_from_civil y m d =
     (let y' = (if m \<le> 2 then y - 1 else y);
          era = y' div 400;
          yoe = y' - era * 400;
          doy = (153 * (if m > 2 then m - 3 else m + 9) + 2) div 5 + d - 1;
          doe = yoe * 365 + yoe div 4 - yoe div 100 + doy
      in era * 146097 + doe - 719468)"

definition civil_from_days :: "int \<Rightarrow> int \<times> int \<times> int" where
  "civil_from_days z =
     (let z' = z + 719468;
          era = z' div 146097;
          doe = z' - era * 146097;
          yoe = (doe - doe div 1460 + doe div 36524 - doe div 146096) div 365;
          doy = doe - (365 * yoe + yoe div 4 - yoe div 100);
          mp = (5 * doy + 2) div 153;
          d = doy - (153 * mp + 2) div 5 + 1;
          m = (if mp < 10 then mp + 3 else mp - 9);
          y = yoe + era * 400
      in (if m \<le> 2 then y + 1 else y, m, d))"

text \<open>The calendar fields of a second count, read as UTC.\<close>

definition of_epoch :: "int \<Rightarrow> datetime" where
  "of_epoch t =
     (case civil_from_days (t div 86400) of
        (y, m, d) \<Rightarrow>
          \<lparr>dt_year = y, dt_month = m, dt_day = d,
           dt_hour = (t mod 86400) div 3600,
           dt_minute = (t mod 3600) div 60,
           dt_second = t mod 60\<rparr>)"

definition to_epoch :: "datetime \<Rightarrow> int" where
  "to_epoch dt =
     days_from_civil (dt_year dt) (dt_month dt) (dt_day dt) * 86400
       + dt_hour dt * 3600 + dt_minute dt * 60 + dt_second dt"

text \<open>
  \<^verbatim>\<open>MINYEAR\<close> and \<^verbatim>\<open>MAXYEAR\<close>: the library raises ValueError for a year
  outside 1 to 9999, that is for a second before 0001-01-01 00:00:00 or after
  9999-12-31 23:59:59.
\<close>

definition in_calendar :: "int \<Rightarrow> bool" where
  "in_calendar t = (- 62135596800 \<le> t \<and> t \<le> 253402300799)"

text \<open>
  The whole seconds the library reads from the float \<^verbatim>\<open>ms / 1000\<close>. The quotient is
  rounded to the nearest double (53 bits, ties to even). Below \<open>2^52\<close> seconds the
  double still has a fraction and the library rounds down to the second; the model
  takes the floor of the exact quotient there, which is what the library gets
  wherever the result lies in the calendar. From \<open>2^52\<close> seconds on the double is
  a whole number, the rounded quotient itself.
\<close>

function bit_length :: "int \<Rightarrow> nat" where
  "bit_length n = (if n \<le> 0 then 0 else Suc (bit_length (n div 2)))"
  by pat_completeness auto
termination
  by (relation "measure nat") auto

declare bit_length.simps [simp del]

definition round_half_even :: "int \<Rightarrow> int \<Rightarrow> int" where
  "round_half_even a b =
     (if 2 * (a mod b) < b then a div b
      else if b < 2 * (a mod b) then a div b + 1
      else if even (a div b) then a div b else a div b + 1)"

definition true_div_1000 :: "int \<Rightarrow> int" where
  "true_div_1000 ms =
     (if \<bar>ms\<bar> < 2 ^ 52 * 1000 then ms div 1000
      else
        (let q = 2 ^ (bit_length (\<bar>ms\<bar> div 1000) - 53);
             d = round_half_even \<bar>ms\<bar> (1000 * q) * q
         in if ms < 0 then - d else d))"

text \<open>
  The platform below the library (64-bit Linux): a timestamp outside the 64-bit
  \<^verbatim>\<open>time_t\<close> raises OverflowError, and C's \<^verbatim>\<open>gmtime\<close> and \<^verbatim>\<open>localtime\<close> fail
  (OSError) when the year leaves a 32-bit \<^verbatim>\<open>int\<close>, that is before the year
  -2147481748 or after the year 2147485547.
\<close>

definition in_time_t :: "int \<Rightarrow> bool" where
  "in_time_t t = (- (2 ^ 63) \<le> t \<and> t < 2 ^ 63)"

definition tm_year_fits :: "int \<Rightarrow> bool" where
  "tm_year_fits t = (- 67768040609740800 \<le> t \<and> t \<le> 67768036191676799)"

text \<open>\<^verbatim>\<open>datetime.utcfromtimestamp(t)\<close> for whole seconds.\<close>

definition utcfromtimestamp :: "int \<Rightarrow> py_error + datetime" where
  "utcfromtimestamp t =
     (if \<not> in_time_t t then Inl OverflowError
      else if \<not> tm_year_fits t then Inl OSError
      else if \<not> in_calendar t then Inl ValueError
      else Inr (of_epoch t))"

text \<open>
  \<^verbatim>\<open>datetime.fromtimestamp(t)\<close>, local time: besides the result, the library probes
  the local time one day earlier (its fold detection), and that probe has to lie in
  the calendar as well.
\<close>

definition fromtimestamp :: "int \<Rightarrow> int \<Rightarrow> py_error + datetime" where
  "fromtimestamp z t =
     (if \<not> in_time_t t then Inl OverflowError
      else if \<not> tm_year_fits (t + z) then Inl OSError
      else if \<not> (in_calendar (t + z) \<and> in_calendar (t + z - 86400)) then Inl ValueError
      else Inr (of_epoch (t + z)))"

text \<open>
  \<^verbatim>\<open>strftime\<close> with the three formats the program uses. The C library prints
  \<^verbatim>\<open>%Y\<close> without padding (the year 999 as \<^verbatim>\<open>999\<close>) and the other fields in two
  digits.
\<close>

definition strftime_date :: "datetime \<Rightarrow> string" where
  \<comment> \<open>\<^verbatim>\<open>"%Y-%m-%d"\<close>\<close>
  "strftime_date dt =
     str_int (dt_year dt) @ ''-'' @ zpad 2 (dt_month dt) @ ''-'' @ zpad 2 (dt_day dt)"

definition strftime_minute :: "datetime \<Rightarrow> string" where
  \<comment> \<open>\<^verbatim>\<open>"%Y-%m-%d %H:%M"\<close>\<close>
  "strftime_minute dt =
     strftime_date dt @ '' '' @ zpad 2 (dt_hour dt) @ '':'' @ zpad 2 (dt_minute dt)"

definition strftime_lean :: "datetime \<Rightarrow> string" where
  \<comment> \<open>\<^verbatim>\<open>"%Y%m%d %H:%M"\<close>\<close>
  "strftime_lean dt =
     str_int (dt_year dt) @ zpad 2 (dt_month dt) @ zpad 2 (dt_day dt) @ '' ''
       @ zpad 2 (dt_hour dt) @ '':'' @ zpad 2 (dt_minute dt)"

text \<open>
  \<^verbatim>\<open>datetime.strptime(s, "%Y-%m-%d")\<close>: four digits, a month written 1..12 or
  01..12, a day written 1..31, 01..31 or with a leading blank, nothing else around
  them, and a day that the month has.
\<close>

definition month_token :: "string \<Rightarrow> int option" where
  "month_token s =
     (case s of
        [a] \<Rightarrow> if is_digit a \<and> a \<noteq> CHR ''0'' then Some (digit_val a) else None
      | [a, b] \<Rightarrow>
          if a = CHR ''1'' \<and> (b = CHR ''0'' \<or> b = CHR ''1'' \<or> b = CHR ''2'')
            then Some (10 + digit_val b)
          else if a = CHR ''0'' \<and> is_digit b \<and> b \<noteq> CHR ''0'' then Some (digit_val b)
          else None
      | _ \<Rightarrow> None)"

definition day_token :: "string \<Rightarrow> int option" where
  "day_token s =
     (case s of
        [a] \<Rightarrow> if is_digit a \<and> a \<noteq> CHR ''0'' then Some (digit_val a) else None
      | [a, b] \<Rightarrow>
          if a = CHR ''3'' \<and> (b = CHR ''0'' \<or> b = CHR ''1'') then Some (30 + digit_val b)
          else if (a = CHR ''1'' \<or> a = CHR ''2'') \<and> is_digit b
            then Some (10 * digit_val a + digit_val b)
          else if (a = CHR ''0'' \<or> a = CHR '' '') \<and> is_digit b \<and> b \<noteq> CHR ''0''
            then Some (digit_val b)
          else None
      | _ \<Rightarrow> None)"

definition strptime_date :: "string \<Rightarrow> py_error + datetime" where
  "strptime_date s =
     (case split_on CHR ''-'' s of
        [ys, ms, ds] \<Rightarrow>
          (if length ys = 4 \<and> list_all is_digit ys then
             (case (month_token ms, day_token ds) of
                (Some m, Some d) \<Rightarrow>
                  (let y = digits_value ys in
                   if y < 1 \<or> days_in_month y m < d then Inl ValueError
                   else Inr \<lparr>dt_year = y, dt_month = m, dt_day = d,
                             dt_hour = 0, dt_minute = 0, dt_second = 0\<rparr>)
              | _ \<Rightarrow> Inl ValueError)
           else Inl ValueError)
      | _ \<Rightarrow> Inl ValueError)"

text \<open>
  \<^verbatim>\<open>dt.timestamp()\<close> of a naive value, read in local time; the library checks the
  calendar range of two local readings on the way.
\<close>

definition timestamp :: "int \<Rightarrow> datetime \<Rightarrow> py_error + int" where
  "timestamp tz dt =
     (let t = to_epoch dt in
      if in_calendar (t + tz) \<and> in_calendar (t - 86400) then Inr (t - tz) else Inl ValueError)"


section \<open>Files, archives and the host\<close>

text \<open>
  An archive entry is the bytes it decompresses to: text (valid UTF-8) or bytes that do
  not decode. A file is a zip archive with its entries in order, or something that
  \<^verbatim>\<open>zipfile\<close> refuses. The file system is an association list from path to file,
  read with \<open>map_of\<close> and written with \<open>AList.update\<close>.
\<close>

datatype entry_data = Text string | Undecodable

datatype file_content = ZipFile "(string \<times> entry_data) list" | NotZip

record disk_file =
  content :: file_content
  st_size :: nat
  st_mtime :: int

type_synonym path = string

type_synonym filesystem = "(path \<times> disk_file) list"

text \<open>\<^verbatim>\<open>Path.name\<close>: the last component of a path string.\<close>

definition path_name :: "path \<Rightarrow> string" where
  "path_name p = rev (takeWhile (\<lambda>c. c \<noteq> CHR ''/'') (rev p))"

text \<open>
  \<^verbatim>\<open>Path.exists()\<close> asks the platform for the file's status. A path with a NUL
  character never reaches the platform (the ValueError is caught, the answer is
  False). Linux refuses a path of more than 4095 characters or with a component of
  more than 255 (\<^verbatim>\<open>ENAMETOOLONG\<close>), and \<^verbatim>\<open>exists\<close> lets that OSError through;
  only the last component is looked at here, the directories of the path being those
  the constructor has made. A path that is merely absent gives False.
\<close>

definition name_too_long :: "path \<Rightarrow> bool" where
  "name_too_long p = (4095 < length p \<or> 255 < length (path_name p))"

definition path_exists :: "filesystem \<Rightarrow> path \<Rightarrow> py_error + bool" where
  "path_exists fs p =
     (if CHR 0x00 \<in> set p then Inr False
      else if name_too_long p then Inl OSError
      else Inr (map_of fs p \<noteq> None))"

text \<open>
  One fetched candle, \<^verbatim>\<open>[openTime_ms, open, high, low, close, ...]\<close>; only indices
  0 to 4 are read. The prices are floats; their type \<open>'f\<close> is left open, and the host
  supplies the two float operations used: the text \<^verbatim>\<open>csv.writer\<close> prints for a float
  and the product \<^verbatim>\<open>x * (1 + SPREAD)\<close>.
\<close>

record 'f candle =
  open_time :: int
  open_price :: 'f
  high_price :: 'f
  low_price :: 'f
  close_price :: 'f

text \<open>
  What the program does not compute itself: the time zone and the clock (epoch
  seconds), the size of a written zip, the float operations, and the remote endpoint
  (symbol, interval, startTime, endTime; \<open>None\<close> when the request or its decoding
  raises).
\<close>

record 'f host =
  tz :: int
  now :: int
  deflate_size :: "(string \<times> entry_data) list \<Rightarrow> nat"
  float_str :: "'f \<Rightarrow> string"
  with_spread :: "'f \<Rightarrow> 'f"
  klines :: "string \<Rightarrow> string \<Rightarrow> int \<Rightarrow> int \<Rightarrow> 'f candle list option"

section \<open>The data manager (\<^verbatim>\<open>data_manager.py\<close>)\<close>

record SymbolStatus =
  symbol :: string
  available :: bool
  file_path :: "string option"
  file_size :: nat
  candles_count :: nat
  start_date :: "string option"
  end_date :: "string option"
  last_updated :: "string option"

definition DEFAULT_START_DATE :: string where
  "DEFAULT_START_DATE = ''2023-01-01''"

text \<open>\<^verbatim>\<open>self.data_path\<close>, set by the constructor from \<^verbatim>\<open>lean_path\<close>.\<close>

definition data_path :: "path \<Rightarrow> path" where
  "data_path lean_path = lean_path @ ''/data/crypto/binance/daily''"

text \<open>\<^verbatim>\<open>self.data_path / f"{symbol.lower()}_quote.zip"\<close> (a symbol holds no slash).\<close>

definition zip_file :: "path \<Rightarrow> string \<Rightarrow> path" where
  "zip_file lp sy = data_path lp @ ''/'' @ lower sy @ ''_quote.zip''"

text \<open>\<^verbatim>\<open>is_symbol_available\<close>: the answer of \<^verbatim>\<open>exists\<close>, or its exception.\<close>

definition is_symbol_available :: "path \<Rightarrow> filesystem \<Rightarrow> string \<Rightarrow> py_error + bool" where
  "is_symbol_available lp fs sy = path_exists fs (zip_file lp sy)"

text \<open>\<^verbatim>\<open>SymbolStatus(symbol=symbol.upper(), available=False)\<close>: the defaults elsewhere.\<close>

definition unavailable :: "string \<Rightarrow> SymbolStatus" where
  "unavailable sy =
     \<lparr>symbol = upper sy, available = False, file_path = None, file_size = 0,
      candles_count = 0, start_date = None, end_date = None, last_updated = None\<rparr>"

text \<open>\<^verbatim>\<open>line.split(',')[0]\<close>\<close>

definition first_field :: "string \<Rightarrow> py_error + string" where
  "first_field line =
     (case split_on CHR '','' line of [] \<Rightarrow> Inl IndexError | p # _ \<Rightarrow> Inr p)"

text \<open>
  \<^verbatim>\<open>datetime.fromtimestamp(int(line.split(',')[0]) / 1000).strftime("%Y-%m-%d")\<close>
\<close>

definition line_date :: "int \<Rightarrow> string \<Rightarrow> py_error + string" where
  "line_date z line =
     (case first_field line of
        Inl e \<Rightarrow> Inl e
      | Inr p \<Rightarrow>
          (case py_int p of
             Inl e \<Rightarrow> Inl e
           | Inr ts \<Rightarrow>
               (case fromtimestamp z (true_div_1000 ts) of
                  Inl e \<Rightarrow> Inl e
                | Inr dt \<Rightarrow> Inr (strftime_date dt))))"

text \<open>The body of the \<^verbatim>\<open>try\<close> in \<^verbatim>\<open>get_symbol_status\<close>, for an existing file.\<close>

definition read_status ::
  "'f host \<Rightarrow> path \<Rightarrow> disk_file \<Rightarrow> string \<Rightarrow> py_error + SymbolStatus" where
  "read_status h zp f sy =
     (case content f of
        NotZip \<Rightarrow> Inl BadZipFile
      | ZipFile entries \<Rightarrow>
          (case entries of
             [] \<Rightarrow> Inl IndexError
           | (csv_name, data) # _ \<Rightarrow>
               (case data of
                  Undecodable \<Rightarrow> Inl UnicodeDecodeError
                | Text txt \<Rightarrow>
                    (let lines = split_on CHR 0x0A (strip txt) in
                     case (if lines = [] then Inr (None, None)
                           else (case line_date (tz h) (hd lines) of
                                   Inl e \<Rightarrow> Inl e
                                 | Inr sd \<Rightarrow>
                                     (case line_date (tz h) (last lines) of
                                        Inl e \<Rightarrow> Inl e
                                      | Inr ed \<Rightarrow> Inr (Some sd, Some ed)))) of
                       Inl e \<Rightarrow> Inl e
                     | Inr (sd, ed) \<Rightarrow>
                         (case fromtimestamp (tz h) (st_mtime f) of
                            Inl e \<Rightarrow> Inl e
                          | Inr mt \<Rightarrow>
                              Inr \<lparr>symbol = upper sy, available = True,
                                   file_path = Some zp, file_size = st_size f,
                                   candles_count = length lines,
                                   start_date = sd, end_date = ed,
                                   last_updated = Some (strftime_minute mt)\<rparr>)))))"

text \<open>
  \<^verbatim>\<open>get_symbol_status\<close>: the call of \<^verbatim>\<open>exists\<close> stands before the \<^verbatim>\<open>try\<close>, so
  its exception leaves the function; everything the \<^verbatim>\<open>try\<close> body raises is
  answered by the status of an unavailable symbol.
\<close>

definition get_symbol_status ::
  "'f host \<Rightarrow> path \<Rightarrow> filesystem \<Rightarrow> string \<Rightarrow> py_error + SymbolStatus" where
  "get_symbol_status h lp fs sy =
     (case path_exists fs (zip_file lp sy) of
        Inl e \<Rightarrow> Inl e
      | Inr there \<Rightarrow>
          if \<not> there then Inr (unavailable sy)
          else
            (case map_of fs (zip_file lp sy) of
               None \<Rightarrow> Inr (unavailable sy)
             | Some f \<Rightarrow>
                 (case read_status h (zip_file lp sy) f sy of
                    Inl e \<Rightarrow> Inr (unavailable sy)
                  | Inr st \<Rightarrow> Inr st)))"

text \<open>
  \<^verbatim>\<open>check_symbols\<close>: the two lists (available, missing), in the order of the input,
  upper-cased; an exception of \<^verbatim>\<open>is_symbol_available\<close> ends the loop.
\<close>

fun check_symbols ::
  "path \<Rightarrow> filesystem \<Rightarrow> string list \<Rightarrow> py_error + string list \<times> string list" where
  "check_symbols lp fs [] = Inr ([], [])"
| "check_symbols lp fs (s # ss) =
     (case is_symbol_available lp fs s of
        Inl e \<Rightarrow> Inl e
      | Inr there \<Rightarrow>
          (case check_symbols lp fs ss of
             Inl e \<Rightarrow> Inl e
           | Inr (av, missing) \<Rightarrow>
               if there then Inr (upper s # av, missing) else Inr (av, upper s # missing)))"

text \<open>
  The paging loop of \<^verbatim>\<open>_download_binance_klines\<close>. \<open>request\<close> is one page request
  at a start time; the loop may not return, so its result is optional.
\<close>

partial_function (option) klines_loop ::
  "(int \<Rightarrow> 'f candle list option) \<Rightarrow> int \<Rightarrow> 'f candle list \<Rightarrow> int \<Rightarrow> 'f candle list option"
where
  "klines_loop request end_ts all_data current_ts =
     (if current_ts < end_ts then
        (case request current_ts of
           None \<Rightarrow> Some all_data
         | Some data \<Rightarrow>
             if data = [] then Some all_data
             else klines_loop request end_ts (all_data @ data) (open_time (last data) + 1))
      else Some all_data)"

declare klines_loop.simps [code]

text \<open>
  The pages of one fetch as the specification describes them: from a start time below
  the end bound a page is requested; a request that fails or a page without rows ends
  the fetch; otherwise the page is kept and the next start time is the open time of
  its last candle plus one.
\<close>

inductive pagination ::
  "(int \<Rightarrow> 'f candle list option) \<Rightarrow> int \<Rightarrow> int \<Rightarrow> 'f candle list list \<Rightarrow> bool"
  for request :: "int \<Rightarrow> 'f candle list option" and end_ts :: int
where
  reached: "\<not> cur < end_ts \<Longrightarrow> pagination request end_ts cur []"
| failed: "cur < end_ts \<Longrightarrow> request cur = None \<Longrightarrow> pagination request end_ts cur []"
| no_rows: "cur < end_ts \<Longrightarrow> request cur = Some [] \<Longrightarrow> pagination request end_ts cur []"
| next_page:
    "cur < end_ts \<Longrightarrow> request cur = Some d \<Longrightarrow> d \<noteq> [] \<Longrightarrow>
     pagination request end_ts (open_time (last d) + 1) ps \<Longrightarrow>
     pagination request end_ts cur (d # ps)"

text \<open>No candle of a page repeats the last candle of the page before it.\<close>

fun no_boundary_repeat :: "'f candle list list \<Rightarrow> bool" where
  "no_boundary_repeat (p # q # ps) =
     ((\<forall>c \<in> set q. open_time (last p) < open_time c) \<and> no_boundary_repeat (q # ps))"
| "no_boundary_repeat ps = True"

text \<open>
  \<^verbatim>\<open>int(datetime.strptime(d, "%Y-%m-%d").timestamp() * 1000)\<close>
\<close>

definition date_ms :: "int \<Rightarrow> string \<Rightarrow> py_error + int" where
  "date_ms z d =
     (case strptime_date d of
        Inl e \<Rightarrow> Inl e
      | Inr dt \<Rightarrow> (case timestamp z dt of Inl e \<Rightarrow> Inl e | Inr t \<Rightarrow> Inr (t * 1000)))"

definition download_binance_klines ::
  "'f host \<Rightarrow> string \<Rightarrow> string \<Rightarrow> string \<Rightarrow> string \<Rightarrow> (py_error + 'f candle list) option" where
  "download_binance_klines h sy interval start_d end_d =
     (case date_ms (tz h) start_d of
        Inl e \<Rightarrow> Some (Inl e)
      | Inr start_ts \<Rightarrow>
          (case date_ms (tz h) end_d of
             Inl e \<Rightarrow> Some (Inl e)
           | Inr end_ts \<Rightarrow>
               map_option Inr
                 (klines_loop (\<lambda>cur. klines h (upper sy) interval cur end_ts)
                    end_ts [] start_ts)))"

text \<open>
  \<^verbatim>\<open>download_binance_klines\<close> of the script \<^verbatim>\<open>download_binance_data.py\<close>: the same
  loop, with the symbol sent as it is given.
\<close>

definition script_download_binance_klines ::
  "'f host \<Rightarrow> string \<Rightarrow> string \<Rightarrow> string \<Rightarrow> string \<Rightarrow> (py_error + 'f candle list) option" where
  "script_download_binance_klines h sy interval start_d end_d =
     (case date_ms (tz h) start_d of
        Inl e \<Rightarrow> Some (Inl e)
      | Inr start_ts \<Rightarrow>
          (case date_ms (tz h) end_d of
             Inl e \<Rightarrow> Some (Inl e)
           | Inr end_ts \<Rightarrow>
               map_option Inr
                 (klines_loop (\<lambda>cur. klines h sy interval cur end_ts)
                    end_ts [] start_ts)))"

text \<open>
  One row as \<^verbatim>\<open>writer.writerow\<close> prints it: nine fields, comma separated, ended by
  CR LF (the writer's default line terminator). Numbers are never quoted.
\<close>

definition quote_fields :: "'f host \<Rightarrow> 'f candle \<Rightarrow> string list" where
  "quote_fields h c =
     [str_int (open_time c),
      float_str h (open_price c), float_str h (high_price c),
      float_str h (low_price c), float_str h (close_price c),
      float_str h (with_spread h (open_price c)), float_str h (with_spread h (high_price c)),
      float_str h (with_spread h (low_price c)), float_str h (with_spread h (close_price c))]"

definition writerow :: "string list \<Rightarrow> string" where
  "writerow row = join '','' row @ [CHR 0x0D, CHR 0x0A]"

definition csv_text :: "'f host \<Rightarrow> 'f candle list \<Rightarrow> string" where
  "csv_text h data = concat (map (\<lambda>c. writerow (quote_fields h c)) data)"

text \<open>A zip written now with the given entries.\<close>

definition new_zip :: "'f host \<Rightarrow> (string \<times> entry_data) list \<Rightarrow> disk_file" where
  "new_zip h entries =
     \<lparr>content = ZipFile entries, st_size = deflate_size h entries, st_mtime = now h\<rparr>"

definition save_to_lean_format ::
  "'f host \<Rightarrow> path \<Rightarrow> filesystem \<Rightarrow> 'f candle list \<Rightarrow> string \<Rightarrow> filesystem \<times> path option" where
  "save_to_lean_format h lp fs data sy =
     (if data = [] then (fs, None)
      else (AList.update (zip_file lp sy)
              (new_zip h [(lower sy @ ''.csv'', Text (csv_text h data))]) fs,
            Some (zip_file lp sy)))"

text \<open>\<^verbatim>\<open>datetime.now().strftime("%Y-%m-%d")\<close>\<close>

definition today :: "'f host \<Rightarrow> py_error + string" where
  "today h =
     (case fromtimestamp (tz h) (now h) of
        Inl e \<Rightarrow> Inl e
      | Inr dt \<Rightarrow> Inr (strftime_date dt))"

text \<open>
  \<^verbatim>\<open>download_symbol\<close>: the result is the new file system and the status, an
  exception, or nothing when the paging loop does not return.
\<close>

definition download_symbol ::
  "'f host \<Rightarrow> path \<Rightarrow> filesystem \<Rightarrow> string \<Rightarrow> string option \<Rightarrow> string option
     \<Rightarrow> (py_error + filesystem \<times> SymbolStatus) option" where
  "download_symbol h lp fs sy start_d end_d =
     (let start' = (case start_d of None \<Rightarrow> DEFAULT_START_DATE | Some d \<Rightarrow> d) in
      case (case end_d of None \<Rightarrow> today h | Some d \<Rightarrow> Inr d) of
        Inl e \<Rightarrow> Some (Inl e)
      | Inr end' \<Rightarrow>
          (case download_binance_klines h sy ''1d'' start' end' of
             None \<Rightarrow> None
           | Some (Inl e) \<Rightarrow> Some (Inl e)
           | Some (Inr data) \<Rightarrow>
               (let fs' = (if data \<noteq> [] then fst (save_to_lean_format h lp fs data sy)
                           else fs)
                in case get_symbol_status h lp fs' sy of
                     Inl e \<Rightarrow> Some (Inl e)
                   | Inr st \<Rightarrow> Some (Inr (fs', st)))))"

definition update_symbol ::
  "'f host \<Rightarrow> path \<Rightarrow> filesystem \<Rightarrow> string \<Rightarrow> (py_error + filesystem \<times> SymbolStatus) option" where
  "update_symbol h lp fs sy =
     (case get_symbol_status h lp fs sy of
        Inl e \<Rightarrow> Some (Inl e)
      | Inr status \<Rightarrow>
          (let start' = (if available status then
                           (case end_date status of
                              None \<Rightarrow> DEFAULT_START_DATE
                            | Some d \<Rightarrow> if d = [] then DEFAULT_START_DATE else d)
                         else DEFAULT_START_DATE)
           in download_symbol h lp fs sy (Some start') None))"

text \<open>The sequential loops of \<^verbatim>\<open>download_missing\<close> and \<^verbatim>\<open>update_all\<close>.\<close>

fun for_each ::
  "(filesystem \<Rightarrow> string \<Rightarrow> (py_error + filesystem \<times> SymbolStatus) option)
     \<Rightarrow> filesystem \<Rightarrow> string list \<Rightarrow> (py_error + filesystem \<times> SymbolStatus list) option" where
  "for_each step fs [] = Some (Inr (fs, []))"
| "for_each step fs (s # ss) =
     (case step fs s of
        None \<Rightarrow> None
      | Some (Inl e) \<Rightarrow> Some (Inl e)
      | Some (Inr (fs1, st)) \<Rightarrow>
          (case for_each step fs1 ss of
             None \<Rightarrow> None
           | Some (Inl e) \<Rightarrow> Some (Inl e)
           | Some (Inr (fs2, sts)) \<Rightarrow> Some (Inr (fs2, st # sts))))"

definition download_missing ::
  "'f host \<Rightarrow> path \<Rightarrow> filesystem \<Rightarrow> string list
     \<Rightarrow> (py_error + filesystem \<times> SymbolStatus list) option" where
  "download_missing h lp fs syms =
     (case check_symbols lp fs syms of
        Inl e \<Rightarrow> Some (Inl e)
      | Inr (av, missing) \<Rightarrow>
          for_each (\<lambda>fs' s. download_symbol h lp fs' s None None) fs missing)"

text \<open>
  \<^verbatim>\<open>get_available_symbols\<close>: the files directly in the data directory whose name
  ends in \<^verbatim>\<open>_quote.zip\<close>; the stem drops \<^verbatim>\<open>.zip\<close>, then every \<^verbatim>\<open>_quote\<close> is
  removed, the rest upper-cased, and the list sorted.
\<close>

definition file_name_in :: "path \<Rightarrow> path \<Rightarrow> string option" where
  "file_name_in dir p =
     (if take (length dir + 1) p = dir @ ''/'' \<and> CHR ''/'' \<notin> set (drop (length dir + 1) p)
      then Some (drop (length dir + 1) p) else None)"

definition ends_with :: "string \<Rightarrow> string \<Rightarrow> bool" where
  "ends_with s suffix =
     (length suffix \<le> length s \<and> drop (length s - length suffix) s = suffix)"

definition get_available_symbols :: "path \<Rightarrow> filesystem \<Rightarrow> string list" where
  "get_available_symbols lp fs =
     sort (map (\<lambda>n. upper (replace ''_quote'' [] (take (length n - 4) n)))
            (filter (\<lambda>n. ends_with n ''_quote.zip'')
               (List.map_filter (file_name_in (data_path lp)) (remdups (map fst fs)))))"

definition update_all ::
  "'f host \<Rightarrow> path \<Rightarrow> filesystem \<Rightarrow> (py_error + filesystem \<times> SymbolStatus list) option" where
  "update_all h lp fs = for_each (update_symbol h lp) fs (get_available_symbols lp fs)"


section \<open>The format converter (\<^verbatim>\<open>convert_quote_data.py\<close>)\<close>

text \<open>\<^verbatim>\<open>datetime.utcfromtimestamp(ts_ms / 1000).strftime("%Y%m%d %H:%M")\<close>\<close>

definition convert_timestamp :: "int \<Rightarrow> py_error + string" where
  "convert_timestamp ts_ms =
     (case utcfromtimestamp (true_div_1000 ts_ms) of
        Inl e \<Rightarrow> Inl e
      | Inr dt \<Rightarrow> Inr (strftime_lean dt))"

text \<open>
  \<^verbatim>\<open>convert_line\<close>: \<open>Inr None\<close> is the returned \<^verbatim>\<open>None\<close>; \<open>Inl e\<close> is an exception
  that the \<^verbatim>\<open>except (ValueError, IndexError)\<close> clause lets through.
\<close>

definition convert_line :: "string \<Rightarrow> py_error + string option" where
  "convert_line line =
     (let parts = split_on CHR '','' (strip line) in
      if length parts < 9 then Inr None
      else
        (case py_int (parts ! 0) of
           Inl e \<Rightarrow> Inr None
         | Inr ts_ms \<Rightarrow>
             (case convert_timestamp ts_ms of
                Inl e \<Rightarrow> if e = ValueError \<or> e = IndexError then Inr None else Inl e
              | Inr lean_date \<Rightarrow>
                  Inr (Some (lean_date @ '','' @ join '','' (take 4 (drop 1 parts)) @ '','' @ ''0''
                             @ '','' @ join '','' (take 4 (drop 5 parts)) @ '','' @ ''0'')))))"

text \<open>The conversion loop of \<^verbatim>\<open>convert_zip_file\<close> over the lines read.\<close>

fun convert_lines :: "string list \<Rightarrow> py_error + string list" where
  "convert_lines [] = Inr []"
| "convert_lines (line # rest) =
     (if strip line = [] then convert_lines rest
      else
        (case convert_line line of
           Inl e \<Rightarrow> Inl e
         | Inr r \<Rightarrow>
             (case convert_lines rest of
                Inl e \<Rightarrow> Inl e
              | Inr rs \<Rightarrow>
                  Inr (case r of None \<Rightarrow> rs | Some x \<Rightarrow> if x = [] then rs else x # rs))))"

text \<open>\<^verbatim>\<open>Path.suffix\<close> and \<^verbatim>\<open>Path.with_suffix\<close> on a path string.\<close>

definition path_suffix :: "string \<Rightarrow> string" where
  "path_suffix name =
     (let r = takeWhile (\<lambda>c. c \<noteq> CHR ''.'') (rev name) in
      if CHR ''.'' \<in> set name \<and> r \<noteq> [] \<and> length r + 1 < length name
      then CHR ''.'' # rev r else [])"

definition with_suffix :: "path \<Rightarrow> string \<Rightarrow> py_error + path" where
  "with_suffix p suffix =
     (if path_name p = [] then Inl ValueError
      else Inr (take (length p - length (path_suffix (path_name p))) p @ suffix))"

text \<open>
  \<^verbatim>\<open>convert_zip_file(input_path, output_path, backup)\<close>: the file system afterwards,
  or the exception that ends the call (nothing is written before one can occur).
\<close>

definition needs_no_conversion :: "string list \<Rightarrow> bool" where
  \<comment> \<open>\<^verbatim>\<open>lines and not lines[0].split(',')[0].isdigit()\<close>\<close>
  "needs_no_conversion lines =
     (case lines of
        [] \<Rightarrow> False
      | l # _ \<Rightarrow> (case split_on CHR '','' l of [] \<Rightarrow> False | p # _ \<Rightarrow> \<not> isdigit p))"

definition convert_zip_file ::
  "'f host \<Rightarrow> filesystem \<Rightarrow> path \<Rightarrow> path option \<Rightarrow> bool \<Rightarrow> py_error + filesystem" where
  "convert_zip_file h fs input_path output_path backup =
     (let out = (case output_path of None \<Rightarrow> input_path | Some p \<Rightarrow> p) in
      case map_of fs input_path of
        None \<Rightarrow> Inl FileNotFoundError
      | Some f \<Rightarrow>
          (case content f of
             NotZip \<Rightarrow> Inl BadZipFile
           | ZipFile entries \<Rightarrow>
               (case entries of
                  [] \<Rightarrow> Inr fs
                | (csv_name, data) # _ \<Rightarrow>
                    (case data of
                       Undecodable \<Rightarrow> Inl UnicodeDecodeError
                     | Text txt \<Rightarrow>
                         (let lines = splitlines txt in
                          if needs_no_conversion lines then Inr fs
                          else
                            (case convert_lines lines of
                               Inl e \<Rightarrow> Inl e
                             | Inr converted \<Rightarrow>
                                 if converted = [] then Inr fs
                                 else
                                   (case (if backup \<and> input_path = out then
                                            (case with_suffix input_path ''.zip.bak'' of
                                               Inl e \<Rightarrow> Inl e
                                             | Inr bp \<Rightarrow> Inr (AList.update bp f fs))
                                          else Inr fs) of
                                      Inl e \<Rightarrow> Inl e
                                    | Inr fs1 \<Rightarrow>
                                        Inr (AList.update out
                                               (new_zip h [(csv_name,
                                                  Text (join [CHR 0x0A] converted))])
                                               fs1))))))))"

section \<open>The current encoding, as specified\<close>


section \<open>Sample data\<close>

text \<open>
  A host for the worked examples: UTC, a fixed clock, whole-number prices printed as
  Python prints a float (\<^verbatim>\<open>100.0\<close>) with the spread product rounded down, and an
  endpoint that serves three daily candles from 2023-11-14 on, two to a page, then
  nothing.
\<close>

definition sample_candles :: "int candle list" where
  "sample_candles =
     [\<lparr>open_time = 1699920000000, open_price = 36500, high_price = 37000,
       low_price = 36000, close_price = 36800\<rparr>,
      \<lparr>open_time = 1700006400000, open_price = 36800, high_price = 37500,
       low_price = 36500, close_price = 37200\<rparr>,
      \<lparr>open_time = 1700092800000, open_price = 37200, high_price = 37400,
       low_price = 35900, close_price = 36100\<rparr>]"

definition sample_klines :: "string \<Rightarrow> string \<Rightarrow> int \<Rightarrow> int \<Rightarrow> int candle list option" where
  "sample_klines sy interval start_ts end_ts =
     (if sy = ''BTCUSDT''
      then Some (take 2 (filter (\<lambda>c. start_ts \<le> open_time c \<and> open_time c \<le> end_ts)
                           sample_candles))
      else Some [])"

definition sample_host :: "int host" where
  "sample_host =
     \<lparr>tz = 0, now = 1700179200,
      deflate_size = (\<lambda>entries. 120),
      float_str = (\<lambda>x. str_int x @ ''.0''),
      with_spread = (\<lambda>x. x + x div 10000),
      klines = sample_klines\<rparr>"

definition legacy_text :: string where
  "legacy_text =
     ''1699920000000,100,101,99,100.5,100.01,101.01,99.01,100.51'' @ [CHR 0x0D, CHR 0x0A] @
     ''1700006400000,100,102,98,101,100.01,102.01,98.01,101.01'' @ [CHR 0x0D, CHR 0x0A]"

definition current_text :: string where
  "current_text =
     ''20231114 00:00,100,101,99,100.5,0,100.01,101.01,99.01,100.51,0'' @ [CHR 0x0A] @
     ''20231115 00:00,100,102,98,101,0,100.01,102.01,98.01,101.01,0''"

definition sample_zip :: "string \<Rightarrow> disk_file" where
  "sample_zip txt =
     \<lparr>content = ZipFile [(''btcusdt.csv'', Text txt)], st_size = 120, st_mtime = 1700000000\<rparr>"

definition sample_fs :: "string \<Rightarrow> filesystem" where
  "sample_fs txt = [(''/lean/data/crypto/binance/daily/btcusdt_quote.zip'', sample_zip txt)]"



section \<open>The status always names the queried symbol\<close>

lemma upper_char_idem: "upper_char (upper_char c) = upper_char c"
  by (auto simp: upper_char_def)

lemma upper_idem: "upper (upper s) = upper s"
  by (simp add: upper_def upper_char_idem)

lemma symbol_unavailable: "symbol (unavailable sy) = upper sy"
  by (simp add: unavailable_def)

lemma symbol_read_status: "read_status h zp f sy = Inr st \<Longrightarrow> symbol st = upper sy"
  by (auto simp: read_status_def Let_def
      split: file_content.splits list.splits prod.splits entry_data.splits sum.splits if_splits)

lemma path_exists_error: "path_exists fs p = Inl e \<Longrightarrow> e = OSError \<and> name_too_long p"
  by (auto simp: path_exists_def split: if_splits)

lemma get_symbol_status_error:
  "get_symbol_status h lp fs sy = Inl e \<Longrightarrow> e = OSError \<and> name_too_long (zip_file lp sy)"
  by (auto simp: get_symbol_status_def dest: path_exists_error
      split: sum.splits option.splits if_splits)

lemma symbol_get_symbol_status:
  "get_symbol_status h lp fs sy = Inr st \<Longrightarrow> symbol st = upper sy"
  by (auto simp: get_symbol_status_def symbol_unavailable symbol_read_status
      split: sum.splits option.splits if_splits)

lemma symbol_download_symbol:
  "download_symbol h lp fs sy sd ed = Some (Inr (fs', st)) \<Longrightarrow> symbol st = upper sy"
  by (auto simp: download_symbol_def Let_def symbol_get_symbol_status
      split: sum.splits option.splits)

lemma symbol_update_symbol:
  "update_symbol h lp fs sy = Some (Inr (fs', st)) \<Longrightarrow> symbol st = upper sy"
  by (auto simp: update_symbol_def Let_def symbol_download_symbol split: sum.splits)

lemma symbol_for_each:
  assumes "\<And>fs s fs1 st. step fs s = Some (Inr (fs1, st)) \<Longrightarrow> symbol st = upper s"
  shows "for_each step fs ss = Some (Inr (fs', sts)) \<Longrightarrow> map symbol sts = map upper ss"
proof (induction ss arbitrary: fs fs' sts)
  case Nil
  then show ?case by simp
next
  case (Cons s ss)
  from Cons.prems obtain fs1 st fs2 rest where
    st: "step fs s = Some (Inr (fs1, st))" and
    rest: "for_each step fs1 ss = Some (Inr (fs2, rest))" and
    sts: "sts = st # rest"
    by (auto split: option.splits sum.splits prod.splits)
  from assms[OF st] Cons.IH[OF rest] sts show ?case by simp
qed

lemma check_symbols_lists:
  "check_symbols lp fs syms = Inr (av, missing) \<Longrightarrow>
     av = map upper (filter (\<lambda>s. is_symbol_available lp fs s = Inr True) syms)
     \<and> missing = map upper (filter (\<lambda>s. is_symbol_available lp fs s = Inr False) syms)"
  by (induction syms arbitrary: av missing)
     (auto split: sum.splits prod.splits if_splits)

text \<open>
  Claim C10. Every status an operation returns carries the upper-cased form of the
  symbol it was asked about: \<^verbatim>\<open>get_symbol_status\<close> in each of its three branches
  (no archive, readable archive, archive that fails to read; it returns a status
  unless the platform refuses the archive's name as too long), \<^verbatim>\<open>download_symbol\<close>
  and \<^verbatim>\<open>update_symbol\<close> whenever they return, and the lists of
  \<^verbatim>\<open>download_missing\<close> and \<^verbatim>\<open>update_all\<close> entry by entry, in the order of the
  symbols they work through.
\<close>

theorem status_symbol_is_upper:
  "(case get_symbol_status h lp fs sy of
      Inl e \<Rightarrow> e = OSError \<and> name_too_long (zip_file lp sy)
    | Inr st \<Rightarrow> symbol st = upper sy)
   \<and> (\<forall>fs' st. download_symbol h lp fs sy sd ed = Some (Inr (fs', st)) \<longrightarrow> symbol st = upper sy)
   \<and> (\<forall>fs' st. update_symbol h lp fs sy = Some (Inr (fs', st)) \<longrightarrow> symbol st = upper sy)
   \<and> (\<forall>fs' sts. download_missing h lp fs syms = Some (Inr (fs', sts)) \<longrightarrow>
         map symbol sts
           = map upper (filter (\<lambda>s. is_symbol_available lp fs s = Inr False) syms))
   \<and> (\<forall>fs' sts. update_all h lp fs = Some (Inr (fs', sts)) \<longrightarrow>
         map symbol sts = map upper (get_available_symbols lp fs))"
proof (intro conjI allI impI)
  show "case get_symbol_status h lp fs sy of
      Inl e \<Rightarrow> e = OSError \<and> name_too_long (zip_file lp sy)
    | Inr st \<Rightarrow> symbol st = upper sy"
    by (auto split: sum.splits dest: get_symbol_status_error symbol_get_symbol_status)
next
  fix fs' st assume "download_symbol h lp fs sy sd ed = Some (Inr (fs', st))"
  then show "symbol st = upper sy" by (rule symbol_download_symbol)
next
  fix fs' st assume "update_symbol h lp fs sy = Some (Inr (fs', st))"
  then show "symbol st = upper sy" by (rule symbol_update_symbol)
next
  fix fs' sts assume run: "download_missing h lp fs syms = Some (Inr (fs', sts))"
  then obtain av missing where
    lists: "check_symbols lp fs syms = Inr (av, missing)" and
    loop: "for_each (\<lambda>fs' s. download_symbol h lp fs' s None None) fs missing
             = Some (Inr (fs', sts))"
    by (auto simp: download_missing_def split: sum.splits prod.splits)
  from loop have "map symbol sts = map upper missing"
    by (rule symbol_for_each[rotated]) (rule symbol_download_symbol)
  with check_symbols_lists[OF lists]
  show "map symbol sts
          = map upper (filter (\<lambda>s. is_symbol_available lp fs s = Inr False) syms)"
    by (simp add: upper_idem)
next
  fix fs' sts assume "update_all h lp fs = Some (Inr (fs', sts))"
  then show "map symbol sts = map upper (get_available_symbols lp fs)"
    unfolding update_all_def
    by (rule symbol_for_each[rotated]) (rule symbol_update_symbol)
qed

theorem status_symbol_is_upper_witness:
  "get_symbol_status sample_host ''/lean'' (sample_fs ''garbage'') ''btcUsdt''
     = Inr (unavailable ''btcUsdt'')
   \<and> symbol (unavailable ''btcUsdt'') = ''BTCUSDT''
   \<and> download_missing sample_host ''/lean'' (sample_fs legacy_text) [''ethusdt'', ''btcusdt'']
       = Some (Inr (sample_fs legacy_text, [unavailable ''ETHUSDT'']))
   \<and> map symbol [unavailable ''ETHUSDT''] = [''ETHUSDT'']"
proof -
  note claim = status_symbol_is_upper[where h = sample_host and lp = "''/lean''"
      and fs = "sample_fs legacy_text" and sy = "''btcUsdt''" and sd = None and ed = None
      and syms = "[''ethusdt'', ''btcusdt'']"]
  have up: "upper ''btcUsdt'' = ''BTCUSDT''" by code_simp
  have run: "download_missing sample_host ''/lean'' (sample_fs legacy_text) [''ethusdt'', ''btcusdt'']
       = Some (Inr (sample_fs legacy_text, [unavailable ''ETHUSDT'']))" by code_simp
  have missing: "map upper (filter (\<lambda>s. is_symbol_available ''/lean'' (sample_fs legacy_text) s
       = Inr False) [''ethusdt'', ''btcusdt'']) = [''ETHUSDT'']" by code_simp
  have status: "get_symbol_status sample_host ''/lean'' (sample_fs ''garbage'') ''btcUsdt''
     = Inr (unavailable ''btcUsdt'')" by code_simp
  from claim run missing have "map symbol [unavailable ''ETHUSDT''] = [''ETHUSDT'']" by metis
  moreover have "symbol (unavailable ''btcUsdt'') = ''BTCUSDT''"
    using status_symbol_is_upper[where h = sample_host and lp = "''/lean''"
        and fs = "sample_fs ''garbage''" and sy = "''btcUsdt''"]
      status up by simp
  ultimately show ?thesis using run status by simp
qed

section \<open>A download that fetches nothing\<close>

text \<open>
  Claim C8. When the fetch of \<^verbatim>\<open>download_symbol\<close> returns no candle, nothing is
  written: the file system afterwards is the file system before, and the status
  returned is the status of what was there (an archive or none). The final
  inspection is the only step left, so the call returns what
  \<^verbatim>\<open>get_symbol_status\<close> returns on the untouched file system, and raises only
  what it raises (an archive name the platform refuses as too long).
\<close>

theorem download_symbol_zero_candles:
  assumes "(case ed of None \<Rightarrow> today h | Some d \<Rightarrow> Inr d) = Inr e"
    and "download_binance_klines h sy ''1d''
           (case sd of None \<Rightarrow> DEFAULT_START_DATE | Some d \<Rightarrow> d) e = Some (Inr [])"
  shows "download_symbol h lp fs sy sd ed
           = Some (case get_symbol_status h lp fs sy of
                     Inl err \<Rightarrow> Inl err
                   | Inr st \<Rightarrow> Inr (fs, st))
         \<and> (\<not> name_too_long (zip_file lp sy) \<longrightarrow>
              (\<exists>st. get_symbol_status h lp fs sy = Inr st
                 \<and> download_symbol h lp fs sy sd ed = Some (Inr (fs, st))))"
proof
  show run: "download_symbol h lp fs sy sd ed
           = Some (case get_symbol_status h lp fs sy of
                     Inl err \<Rightarrow> Inl err
                   | Inr st \<Rightarrow> Inr (fs, st))"
    using assms by (simp add: download_symbol_def Let_def split: sum.splits)
  show "\<not> name_too_long (zip_file lp sy) \<longrightarrow>
              (\<exists>st. get_symbol_status h lp fs sy = Inr st
                 \<and> download_symbol h lp fs sy sd ed = Some (Inr (fs, st)))"
  proof
    assume short: "\<not> name_too_long (zip_file lp sy)"
    show "\<exists>st. get_symbol_status h lp fs sy = Inr st
                 \<and> download_symbol h lp fs sy sd ed = Some (Inr (fs, st))"
    proof (cases "get_symbol_status h lp fs sy")
      case (Inl err)
      with get_symbol_status_error[OF Inl] short show ?thesis by simp
    next
      case (Inr st)
      with run show ?thesis by simp
    qed
  qed
qed

theorem download_symbol_zero_candles_witness:
  "download_symbol (sample_host\<lparr>klines := (\<lambda>s i a b. Some [])\<rparr>) ''/lean'' (sample_fs legacy_text)
      ''btcusdt'' None None
    = Some (Inr (sample_fs legacy_text,
        \<lparr>symbol = ''BTCUSDT'', available = True,
         file_path = Some ''/lean/data/crypto/binance/daily/btcusdt_quote.zip'',
         file_size = 120, candles_count = 2, start_date = Some ''2023-11-14'',
         end_date = Some ''2023-11-15'', last_updated = Some ''2023-11-14 22:13''\<rparr>))"
proof -
  let ?h = "sample_host\<lparr>klines := (\<lambda>s i a b. Some [])\<rparr>"
  have day: "(case None of None \<Rightarrow> today ?h | Some d \<Rightarrow> Inr d) = Inr ''2023-11-17''"
    by code_simp
  have fetch: "download_binance_klines ?h ''btcusdt'' ''1d''
      (case None of None \<Rightarrow> DEFAULT_START_DATE | Some d \<Rightarrow> d) ''2023-11-17'' = Some (Inr [])"
    by code_simp
  have before: "get_symbol_status ?h ''/lean'' (sample_fs legacy_text) ''btcusdt''
      = Inr \<lparr>symbol = ''BTCUSDT'', available = True,
         file_path = Some ''/lean/data/crypto/binance/daily/btcusdt_quote.zip'',
         file_size = 120, candles_count = 2, start_date = Some ''2023-11-14'',
         end_date = Some ''2023-11-15'', last_updated = Some ''2023-11-14 22:13''\<rparr>"
    by code_simp
  show ?thesis
    using download_symbol_zero_candles[OF day fetch, of "''/lean''" "sample_fs legacy_text"]
    by (simp only: before sum.case)
qed

section \<open>Inspection and an archive name the platform refuses\<close>

lemma line_date_bad_field:
  "first_field line = Inr p \<Longrightarrow> py_int p = Inl e \<Longrightarrow> line_date z line = Inl e"
  by (simp add: line_date_def)

lemma split_on_not_Nil: "split_on c s \<noteq> []"
  by (induction s) (auto split: list.splits)

lemma read_status_unreadable:
  assumes "content f = NotZip \<or> content f = ZipFile []
      \<or> (\<exists>n es. content f = ZipFile ((n, Undecodable) # es))
      \<or> (\<exists>n es tx e. content f = ZipFile ((n, Text tx) # es)
            \<and> (line_date (tz h) (hd (split_on CHR 0x0A (strip tx))) = Inl e
               \<or> line_date (tz h) (last (split_on CHR 0x0A (strip tx))) = Inl e))
      \<or> (\<exists>e. fromtimestamp (tz h) (st_mtime f) = Inl e)"
  shows "\<exists>e. read_status h zp f sy = Inl e"
  using assms
  by (auto simp: read_status_def Let_def split_on_not_Nil
      split: file_content.splits list.splits prod.splits entry_data.splits sum.splits)

lemma get_symbol_status_absent:
  "\<not> name_too_long (zip_file lp sy) \<Longrightarrow> map_of fs (zip_file lp sy) = None \<Longrightarrow>
     get_symbol_status h lp fs sy = Inr (unavailable sy)"
  by (simp add: get_symbol_status_def path_exists_def)

lemma get_symbol_status_unreadable:
  "map_of fs (zip_file lp sy) = Some f \<Longrightarrow> read_status h (zip_file lp sy) f sy = Inl e \<Longrightarrow>
     get_symbol_status h lp fs sy = Inr (unavailable sy) \<or> get_symbol_status h lp fs sy = Inl OSError"
  by (simp add: get_symbol_status_def path_exists_def)

text \<open>
  Claim C6, at a symbol of 300 letters. The archive of that symbol would be named by
  310 characters, more than the 255 the platform allows in one path component. The
  call of \<^verbatim>\<open>exists\<close> stands before the \<^verbatim>\<open>try\<close>, its OSError leaves
  \<^verbatim>\<open>get_symbol_status\<close>, and no status \<open>available = False\<close> is returned; the same
  error raised by opening an archive inside the \<^verbatim>\<open>try\<close> is answered by that
  status, as is every other failure there (here an archive whose first field is a
  word).
\<close>

theorem get_symbol_status_long_symbol_raises:
  "get_symbol_status sample_host ''/lean'' [] (replicate 300 CHR ''A'') = Inl OSError
   \<and> is_symbol_available ''/lean'' [] (replicate 300 CHR ''A'') = Inl OSError
   \<and> get_symbol_status sample_host ''/lean'' [] (replicate 245 CHR ''A'')
       = Inr (unavailable (replicate 245 CHR ''A''))
   \<and> get_symbol_status sample_host ''/lean'' (sample_fs ''yesterday,100,101'') ''btcusdt''
       = Inr (unavailable ''btcusdt'')"
proof (intro conjI)
  show "get_symbol_status sample_host ''/lean'' [] (replicate 300 CHR ''A'') = Inl OSError"
    by code_simp
  show "is_symbol_available ''/lean'' [] (replicate 300 CHR ''A'') = Inl OSError"
    by code_simp
  show "get_symbol_status sample_host ''/lean'' [] (replicate 245 CHR ''A'')
       = Inr (unavailable (replicate 245 CHR ''A''))"
    by code_simp
  show "get_symbol_status sample_host ''/lean'' (sample_fs ''yesterday,100,101'') ''btcusdt''
       = Inr (unavailable ''btcusdt'')"
    by code_simp
qed

section \<open>Converting one legacy row\<close>


lemma split_on_append: "c \<notin> set a \<Longrightarrow> split_on c (a @ c # b) = a # split_on c b"
  by (induction a) auto











section \<open>Converting twice\<close>

lemma is_digit_digit_char: "is_digit (digit_char n)"
proof -
  have "0 \<le> n mod 10" and "n mod 10 < 10" by simp_all
  then have "(48 + n mod 10) mod 256 = 48 + n mod 10" by simp
  then show ?thesis by (simp add: is_digit_def digit_char_def)
qed

lemma digits_of_digits: "c \<in> set (digits_of n) \<Longrightarrow> is_digit c"
proof (induction n rule: digits_of.induct)
  case (1 n)
  then show ?case
    by (subst (asm) (2) digits_of.simps) (auto simp: is_digit_digit_char split: if_splits)
qed

lemma digits_of_not_Nil: "digits_of n \<noteq> []"
  by (subst digits_of.simps) simp

lemma str_int_chars: "c \<in> set (str_int i) \<Longrightarrow> is_digit c \<or> c = CHR ''-''"
  by (auto simp: str_int_def dest: digits_of_digits split: if_splits)

lemma zpad_chars: "c \<in> set (zpad w i) \<Longrightarrow> is_digit c \<or> c = CHR ''-''"
  by (auto simp: zpad_def is_digit_def dest: str_int_chars)

lemma strftime_lean_chars:
  "c \<in> set (strftime_lean dt) \<Longrightarrow> is_digit c \<or> c = CHR ''-'' \<or> c = CHR '' '' \<or> c = CHR '':''"
  by (auto simp: strftime_lean_def dest: zpad_chars str_int_chars)

lemma strftime_lean_plain:
  "CHR '','' \<notin> set (strftime_lean dt)" "\<forall>c \<in> set (strftime_lean dt). \<not> is_linebreak c"
  by (auto dest!: strftime_lean_chars simp: is_digit_def is_linebreak_def)

lemma strftime_lean_not_isdigit: "\<not> isdigit (strftime_lean dt)"
proof -
  have "CHR '' '' \<in> set (strftime_lean dt)" by (simp add: strftime_lean_def)
  moreover have "\<not> is_digit CHR '' ''" by (simp add: is_digit_def)
  ultimately show ?thesis by (auto simp: isdigit_def list_all_iff)
qed

lemma convert_line_shape:
  "convert_line l = Inr (Some x) \<Longrightarrow> \<exists>dt rest. x = strftime_lean dt @ CHR '','' # rest"
  by (auto simp: convert_line_def Let_def convert_timestamp_def split: if_splits sum.splits)

lemma convert_lines_shape:
  "convert_lines ls = Inr rs \<Longrightarrow> x \<in> set rs \<Longrightarrow>
     \<exists>dt rest. x = strftime_lean dt @ CHR '','' # rest"
proof (induction ls arbitrary: rs)
  case Nil
  then show ?case by simp
next
  case (Cons l ls)
  show ?case
  proof (cases "strip l = []")
    case True
    with Cons show ?thesis by simp
  next
    case False
    with Cons.prems(1) obtain r rs' where
      r: "convert_line l = Inr r" and rs': "convert_lines ls = Inr rs'" and
      rs: "rs = (case r of None \<Rightarrow> rs' | Some y \<Rightarrow> if y = [] then rs' else y # rs')"
      by (auto split: sum.splits)
    show ?thesis
    proof (cases "x \<in> set rs'")
      case True
      with Cons.IH[OF rs'] show ?thesis by simp
    next
      case False
      with rs Cons.prems(2) have "r = Some x" by (auto split: option.splits if_splits)
      with r show ?thesis by (simp add: convert_line_shape)
    qed
  qed
qed

lemma join_Cons_prefix: "\<exists>t. join sep (x # xs) = x @ t"
  by (cases xs) auto

lemma splitlines_acc_plain:
  "\<forall>c \<in> set k. \<not> is_linebreak c \<Longrightarrow> splitlines_acc acc (k @ t) = splitlines_acc (rev k @ acc) t"
proof (induction k arbitrary: acc)
  case Nil
  then show ?case by simp
next
  case (Cons c k)
  then have "\<not> is_linebreak c" and "c \<noteq> CHR 0x0D"
    by (auto simp: is_linebreak_def)
  with Cons show ?case by simp
qed

lemma splitlines_acc_first:
  "acc \<noteq> [] \<Longrightarrow> \<exists>l ls. splitlines_acc acc t = (rev acc @ l) # ls"
proof (induction t arbitrary: acc)
  case Nil
  then show ?case by simp
next
  case (Cons x xs)
  show ?case
  proof (cases "(x = CHR 0x0D \<and> xs \<noteq> [] \<and> hd xs = CHR 0x0A) \<or> is_linebreak x")
    case True
    then show ?thesis by auto
  next
    case False
    from Cons.IH[of "x # acc"] obtain l ls where
      "splitlines_acc (x # acc) xs = (rev (x # acc) @ l) # ls" by auto
    with False show ?thesis by auto
  qed
qed

lemma splitlines_first_field:
  assumes "\<forall>c \<in> set k. \<not> is_linebreak c"
  shows "\<exists>l ls. splitlines (k @ CHR '','' # t) = (k @ CHR '','' # l) # ls"
proof -
  have "\<forall>c \<in> set (k @ '',''). \<not> is_linebreak c"
    using assms by (simp add: is_linebreak_def)
  then have "splitlines_acc [] ((k @ '','') @ t) = splitlines_acc (rev (k @ '','') @ []) t"
    by (rule splitlines_acc_plain)
  moreover obtain l ls where "splitlines_acc (rev (k @ '','')) t = (rev (rev (k @ '','')) @ l) # ls"
    using splitlines_acc_first[of "rev (k @ '','')" t] by auto
  ultimately show ?thesis by (auto simp: splitlines_def)
qed

lemma converted_needs_no_conversion:
  assumes "convert_lines ls = Inr converted" and "converted \<noteq> []"
  shows "needs_no_conversion (splitlines (join [CHR 0x0A] converted))"
proof -
  from assms(2) obtain x xs where c: "converted = x # xs" by (cases converted) auto
  with convert_lines_shape[OF assms(1), of x] obtain dt rest where
    x: "x = strftime_lean dt @ CHR '','' # rest" by auto
  from join_Cons_prefix[of "[CHR 0x0A]" x xs] obtain t where
    "join [CHR 0x0A] converted = strftime_lean dt @ CHR '','' # (rest @ t)"
    using c x by auto
  with splitlines_first_field[OF strftime_lean_plain(2)] obtain l ls where
    "splitlines (join [CHR 0x0A] converted) = (strftime_lean dt @ CHR '','' # l) # ls"
    by metis
  then show ?thesis
    by (simp add: needs_no_conversion_def split_on_append strftime_lean_plain(1)
        strftime_lean_not_isdigit)
qed

text \<open>
  Claim C5. Converting an archive in place a second time changes nothing: if
  \<^verbatim>\<open>convert_zip_file\<close> returns, running it again on the result (whatever the clock
  and the backup flag) returns the same file system. Either the first run wrote
  nothing and the second sees the same file, or the first run wrote rows that begin
  with a date key, whose first field is not all digits, so the second run skips.
\<close>

theorem convert_zip_file_idempotent:
  assumes "convert_zip_file h fs p None backup = Inr fs'"
  shows "convert_zip_file h' fs' p None backup' = Inr fs'"
proof -
  from assms obtain f where f: "map_of fs p = Some f"
    by (auto simp: convert_zip_file_def split: option.splits)
  from assms f obtain entries where z: "content f = ZipFile entries"
    by (cases "content f") (auto simp: convert_zip_file_def)
  show ?thesis
  proof (cases entries)
    case Nil
    with assms f z have "fs' = fs" by (simp add: convert_zip_file_def)
    with f z Nil show ?thesis by (simp add: convert_zip_file_def)
  next
    case (Cons en others)
    obtain csv_name data where en: "en = (csv_name, data)" by (cases en)
    from assms f z Cons en obtain tx where data: "data = Text tx"
      by (cases data) (auto simp: convert_zip_file_def)
    note steps = convert_zip_file_def f z Cons en data
    show ?thesis
    proof (cases "needs_no_conversion (splitlines tx)")
      case True
      with assms have "fs' = fs" by (simp add: steps)
      with True show ?thesis by (simp add: steps)
    next
      case False
      with assms obtain converted where cl: "convert_lines (splitlines tx) = Inr converted"
        by (cases "convert_lines (splitlines tx)") (auto simp: steps)
      show ?thesis
      proof (cases "converted = []")
        case True
        with assms False cl have "fs' = fs" by (simp add: steps)
        with True False cl show ?thesis by (simp add: steps)
      next
        case nonempty: False
        from assms False cl nonempty obtain fs1 where
          fs': "fs' = AList.update p
                  (new_zip h [(csv_name, Text (join [CHR 0x0A] converted))]) fs1"
          by (auto simp: steps Let_def split: sum.splits if_splits)
        have "map_of fs' p = Some (new_zip h [(csv_name, Text (join [CHR 0x0A] converted))])"
          by (simp add: fs' update_conv')
        moreover have "needs_no_conversion (splitlines (join [CHR 0x0A] converted))"
          using cl nonempty by (rule converted_needs_no_conversion)
        ultimately show ?thesis
          by (simp add: convert_zip_file_def new_zip_def)
      qed
    qed
  qed
qed

theorem convert_zip_file_idempotent_witness:
  "convert_zip_file sample_host (sample_fs legacy_text)
      ''/lean/data/crypto/binance/daily/btcusdt_quote.zip'' None True
    = Inr [(''/lean/data/crypto/binance/daily/btcusdt_quote.zip'',
              new_zip sample_host [(''btcusdt.csv'', Text current_text)]),
           (''/lean/data/crypto/binance/daily/btcusdt_quote.zip.bak'', sample_zip legacy_text)]
   \<and> convert_zip_file sample_host
        [(''/lean/data/crypto/binance/daily/btcusdt_quote.zip'',
              new_zip sample_host [(''btcusdt.csv'', Text current_text)]),
         (''/lean/data/crypto/binance/daily/btcusdt_quote.zip.bak'', sample_zip legacy_text)]
        ''/lean/data/crypto/binance/daily/btcusdt_quote.zip'' None True
    = Inr [(''/lean/data/crypto/binance/daily/btcusdt_quote.zip'',
              new_zip sample_host [(''btcusdt.csv'', Text current_text)]),
           (''/lean/data/crypto/binance/daily/btcusdt_quote.zip.bak'', sample_zip legacy_text)]"
proof -
  have first: "convert_zip_file sample_host (sample_fs legacy_text)
      ''/lean/data/crypto/binance/daily/btcusdt_quote.zip'' None True
    = Inr [(''/lean/data/crypto/binance/daily/btcusdt_quote.zip'',
              new_zip sample_host [(''btcusdt.csv'', Text current_text)]),
           (''/lean/data/crypto/binance/daily/btcusdt_quote.zip.bak'', sample_zip legacy_text)]"
    by code_simp
  from first convert_zip_file_idempotent[OF first, of sample_host True]
  show ?thesis by (rule conjI)
qed

section \<open>Paging through the remote range\<close>

lemma klines_loop_stop:
  "\<not> cur < end_ts \<or> request cur = Some [] \<or> request cur = None \<Longrightarrow>
     klines_loop request end_ts acc cur = Some acc"
  by (subst klines_loop.simps) auto

lemma klines_loop_step:
  "cur < end_ts \<Longrightarrow> request cur = Some d \<Longrightarrow> d \<noteq> [] \<Longrightarrow>
     klines_loop request end_ts acc cur
       = klines_loop request end_ts (acc @ d) (open_time (last d) + 1)"
  by (subst klines_loop.simps) simp

lemma klines_loop_pages:
  assumes pre: "\<And>cur d c. request cur = Some d \<Longrightarrow> c \<in> set d \<Longrightarrow> cur \<le> open_time c"
  shows "\<exists>pages. pagination request end_ts cur pages
           \<and> klines_loop request end_ts acc cur = Some (acc @ concat pages)
           \<and> no_boundary_repeat pages
           \<and> (\<forall>c \<in> set (concat pages). cur \<le> open_time c)"
proof (induction "nat (end_ts - cur)" arbitrary: cur acc rule: less_induct)
  case less
  show ?case
  proof (cases "cur < end_ts")
    case False
    then have "pagination request end_ts cur []" by (rule pagination.reached)
    moreover from False have "klines_loop request end_ts acc cur = Some acc"
      by (simp add: klines_loop_stop)
    ultimately show ?thesis by (intro exI[of _ "[]"]) simp
  next
    case True
    show ?thesis
    proof (cases "request cur")
      case None
      with True have "pagination request end_ts cur []" by (rule pagination.failed)
      moreover from None have "klines_loop request end_ts acc cur = Some acc"
        by (simp add: klines_loop_stop)
      ultimately show ?thesis by (intro exI[of _ "[]"]) simp
    next
      case (Some d)
      show ?thesis
      proof (cases "d = []")
        case empty: True
        with True Some have "pagination request end_ts cur []"
          by (intro pagination.no_rows) simp_all
        moreover from Some empty have "klines_loop request end_ts acc cur = Some acc"
          by (simp add: klines_loop_stop)
        ultimately show ?thesis by (intro exI[of _ "[]"]) simp
      next
        case False
        then have "last d \<in> set d" by simp
        with pre[OF Some] have forward: "cur \<le> open_time (last d)" by blast
        with True have "nat (end_ts - (open_time (last d) + 1)) < nat (end_ts - cur)"
          by simp
        from less[OF this, of "acc @ d"] obtain ps where
          ps: "pagination request end_ts (open_time (last d) + 1) ps"
          and run: "klines_loop request end_ts (acc @ d) (open_time (last d) + 1)
                      = Some ((acc @ d) @ concat ps)"
          and apart: "no_boundary_repeat ps"
          and later: "\<forall>c \<in> set (concat ps). open_time (last d) + 1 \<le> open_time c"
          by blast
        have "pagination request end_ts cur (d # ps)"
          using True Some False ps by (rule pagination.next_page)
        moreover have "klines_loop request end_ts acc cur = Some (acc @ concat (d # ps))"
          using klines_loop_step[of cur end_ts request d acc] True Some False run by simp
        moreover have "no_boundary_repeat (d # ps)"
        proof (cases ps)
          case Nil
          then show ?thesis by simp
        next
          case (Cons q qs)
          have "\<forall>c \<in> set q. open_time (last d) < open_time c"
          proof
            fix c assume "c \<in> set q"
            with Cons have "c \<in> set (concat ps)" by simp
            with later have "open_time (last d) + 1 \<le> open_time c" by blast
            then show "open_time (last d) < open_time c" by simp
          qed
          with apart Cons show ?thesis by simp
        qed
        moreover have "\<forall>c \<in> set (concat (d # ps)). cur \<le> open_time c"
        proof
          fix c assume "c \<in> set (concat (d # ps))"
          then consider "c \<in> set d" | "c \<in> set (concat ps)" by auto
          then show "cur \<le> open_time c"
          proof cases
            case 1
            with pre[OF Some] show ?thesis by blast
          next
            case 2
            with later have "open_time (last d) + 1 \<le> open_time c" by blast
            with forward show ?thesis by simp
          qed
        qed
        ultimately show ?thesis by blast
      qed
    qed
  qed
qed

lemma pagination_unique:
  "pagination request end_ts cur ps \<Longrightarrow> pagination request end_ts cur qs \<Longrightarrow> ps = qs"
proof (induction arbitrary: qs rule: pagination.induct)
  case (reached cur)
  from reached(2) reached(1) show ?case by (cases rule: pagination.cases) simp_all
next
  case (failed cur)
  from failed(3) failed(1,2) show ?case by (cases rule: pagination.cases) simp_all
next
  case (no_rows cur)
  from no_rows(3) no_rows(1,2) show ?case by (cases rule: pagination.cases) simp_all
next
  case (next_page cur d ps)
  from next_page.prems next_page.hyps(1,2,3) obtain qs' where
    "qs = d # qs'" and "pagination request end_ts (open_time (last d) + 1) qs'"
    by (cases rule: pagination.cases) simp_all
  with next_page.IH show ?case by simp
qed

lemma fetch_pages:
  assumes "\<And>t p c. request t = Some p \<Longrightarrow> c \<in> set p \<Longrightarrow> t \<le> open_time c"
  shows "\<exists>pages. pagination request end_ts cur pages
           \<and> map_option Inr (klines_loop request end_ts [] cur) = Some (Inr (concat pages))
           \<and> no_boundary_repeat pages"
proof -
  have "\<exists>pages. pagination request end_ts cur pages
           \<and> klines_loop request end_ts [] cur = Some ([] @ concat pages)
           \<and> no_boundary_repeat pages
           \<and> (\<forall>c \<in> set (concat pages). cur \<le> open_time c)"
    using assms by (rule klines_loop_pages)
  then show ?thesis by auto
qed

text \<open>
  Claim C7. One turn of the paging loop: below the end bound, a page with rows is
  appended and the next request starts at the open time of its last candle plus one;
  the loop ends when the start time has reached the end bound or the page has no rows
  (a request that fails ends it the same way). The pages of a fetch are determined by
  the endpoint. When no page holds a candle older than the start time it was
  requested with, the loop returns, its result is the pages of the fetch one after
  the other, and every candle of a later page is newer than the last candle of the
  page before. \<^verbatim>\<open>_download_binance_klines\<close> and the script's
  \<^verbatim>\<open>download_binance_klines\<close> then return as well: for dates that parse, the pages
  of the fetch from the start date's epoch to the end date's, one after the other.
\<close>

theorem klines_pagination_terminates:
  "(cur < end_ts \<and> request cur = Some d \<and> d \<noteq> [] \<longrightarrow>
      klines_loop request end_ts acc cur
        = klines_loop request end_ts (acc @ d) (open_time (last d) + 1))
   \<and> (\<not> cur < end_ts \<or> request cur = Some [] \<or> request cur = None \<longrightarrow>
      klines_loop request end_ts acc cur = Some acc)
   \<and> ((\<forall>t p. request t = Some p \<longrightarrow> (\<forall>c \<in> set p. t \<le> open_time c)) \<longrightarrow>
      (\<exists>pages. pagination request end_ts cur pages
         \<and> klines_loop request end_ts [] cur = Some (concat pages)
         \<and> no_boundary_repeat pages))
   \<and> (\<forall>ps qs. pagination request end_ts cur ps \<and> pagination request end_ts cur qs
         \<longrightarrow> ps = qs)
   \<and> ((\<forall>s i t e p. klines h s i t e = Some p \<longrightarrow> (\<forall>c \<in> set p. t \<le> open_time c)) \<longrightarrow>
      (\<exists>r. download_binance_klines h sy interval start_d end_d = Some r)
      \<and> (\<exists>r. script_download_binance_klines h sy interval start_d end_d = Some r)
      \<and> (\<forall>from_ts to_ts.
            date_ms (tz h) start_d = Inr from_ts \<and> date_ms (tz h) end_d = Inr to_ts \<longrightarrow>
            (\<exists>pages. pagination (\<lambda>t. klines h (upper sy) interval t to_ts) to_ts from_ts pages
               \<and> download_binance_klines h sy interval start_d end_d
                     = Some (Inr (concat pages))
               \<and> no_boundary_repeat pages)
            \<and> (\<exists>pages. pagination (\<lambda>t. klines h sy interval t to_ts) to_ts from_ts pages
               \<and> script_download_binance_klines h sy interval start_d end_d
                     = Some (Inr (concat pages))
               \<and> no_boundary_repeat pages)))"
proof (intro conjI impI allI)
  assume "cur < end_ts \<and> request cur = Some d \<and> d \<noteq> []"
  then show "klines_loop request end_ts acc cur
        = klines_loop request end_ts (acc @ d) (open_time (last d) + 1)"
    by (simp add: klines_loop_step)
next
  assume "\<not> cur < end_ts \<or> request cur = Some [] \<or> request cur = None"
  then show "klines_loop request end_ts acc cur = Some acc"
    by (rule klines_loop_stop)
next
  assume a: "\<forall>t p. request t = Some p \<longrightarrow> (\<forall>c \<in> set p. t \<le> open_time c)"
  have "\<exists>pages. pagination request end_ts cur pages
         \<and> klines_loop request end_ts [] cur = Some ([] @ concat pages)
         \<and> no_boundary_repeat pages
         \<and> (\<forall>c \<in> set (concat pages). cur \<le> open_time c)"
  proof (rule klines_loop_pages)
    fix t p c
    assume "request t = Some p" and "c \<in> set p"
    with a show "t \<le> open_time c" by blast
  qed
  then show "\<exists>pages. pagination request end_ts cur pages
         \<and> klines_loop request end_ts [] cur = Some (concat pages)
         \<and> no_boundary_repeat pages"
    by auto
next
  fix ps qs
  assume "pagination request end_ts cur ps \<and> pagination request end_ts cur qs"
  then show "ps = qs" by (blast intro: pagination_unique)
next
  assume a: "\<forall>s i t e p. klines h s i t e = Some p \<longrightarrow> (\<forall>c \<in> set p. t \<le> open_time c)"
  show "\<exists>r. download_binance_klines h sy interval start_d end_d = Some r"
  proof (cases "date_ms (tz h) start_d")
    case (Inl e)
    then show ?thesis by (simp add: download_binance_klines_def)
  next
    case start: (Inr start_ts)
    show ?thesis
    proof (cases "date_ms (tz h) end_d")
      case (Inl e)
      with start show ?thesis by (simp add: download_binance_klines_def)
    next
      case (Inr e)
      have "\<exists>pages. pagination (\<lambda>t. klines h (upper sy) interval t e) e start_ts pages
         \<and> map_option Inr (klines_loop (\<lambda>t. klines h (upper sy) interval t e) e [] start_ts)
              = Some (Inr (concat pages))
         \<and> no_boundary_repeat pages"
      proof (rule fetch_pages)
        fix t p c
        assume "klines h (upper sy) interval t e = Some p" and "c \<in> set p"
        with a show "t \<le> open_time c" by blast
      qed
      with start Inr show ?thesis by (auto simp: download_binance_klines_def)
    qed
  qed
next
  assume a: "\<forall>s i t e p. klines h s i t e = Some p \<longrightarrow> (\<forall>c \<in> set p. t \<le> open_time c)"
  show "\<exists>r. script_download_binance_klines h sy interval start_d end_d = Some r"
  proof (cases "date_ms (tz h) start_d")
    case (Inl e)
    then show ?thesis by (simp add: script_download_binance_klines_def)
  next
    case start: (Inr start_ts)
    show ?thesis
    proof (cases "date_ms (tz h) end_d")
      case (Inl e)
      with start show ?thesis by (simp add: script_download_binance_klines_def)
    next
      case (Inr e)
      have "\<exists>pages. pagination (\<lambda>t. klines h sy interval t e) e start_ts pages
         \<and> map_option Inr (klines_loop (\<lambda>t. klines h sy interval t e) e [] start_ts)
              = Some (Inr (concat pages))
         \<and> no_boundary_repeat pages"
      proof (rule fetch_pages)
        fix t p c
        assume "klines h sy interval t e = Some p" and "c \<in> set p"
        with a show "t \<le> open_time c" by blast
      qed
      with start Inr show ?thesis by (auto simp: script_download_binance_klines_def)
    qed
  qed
next
  fix from_ts to_ts
  assume a: "\<forall>s i t e p. klines h s i t e = Some p \<longrightarrow> (\<forall>c \<in> set p. t \<le> open_time c)"
    and dates: "date_ms (tz h) start_d = Inr from_ts \<and> date_ms (tz h) end_d = Inr to_ts"
  have "\<exists>pages. pagination (\<lambda>t. klines h (upper sy) interval t to_ts) to_ts from_ts pages
         \<and> map_option Inr (klines_loop (\<lambda>t. klines h (upper sy) interval t to_ts) to_ts []
                from_ts) = Some (Inr (concat pages))
         \<and> no_boundary_repeat pages"
  proof (rule fetch_pages)
    fix t p c
    assume "klines h (upper sy) interval t to_ts = Some p" and "c \<in> set p"
    with a show "t \<le> open_time c" by blast
  qed
  with dates
  show "\<exists>pages. pagination (\<lambda>t. klines h (upper sy) interval t to_ts) to_ts from_ts pages
               \<and> download_binance_klines h sy interval start_d end_d
                     = Some (Inr (concat pages))
               \<and> no_boundary_repeat pages"
    by (simp add: download_binance_klines_def)
next
  fix from_ts to_ts
  assume a: "\<forall>s i t e p. klines h s i t e = Some p \<longrightarrow> (\<forall>c \<in> set p. t \<le> open_time c)"
    and dates: "date_ms (tz h) start_d = Inr from_ts \<and> date_ms (tz h) end_d = Inr to_ts"
  have "\<exists>pages. pagination (\<lambda>t. klines h sy interval t to_ts) to_ts from_ts pages
         \<and> map_option Inr (klines_loop (\<lambda>t. klines h sy interval t to_ts) to_ts []
                from_ts) = Some (Inr (concat pages))
         \<and> no_boundary_repeat pages"
  proof (rule fetch_pages)
    fix t p c
    assume "klines h sy interval t to_ts = Some p" and "c \<in> set p"
    with a show "t \<le> open_time c" by blast
  qed
  with dates
  show "\<exists>pages. pagination (\<lambda>t. klines h sy interval t to_ts) to_ts from_ts pages
               \<and> script_download_binance_klines h sy interval start_d end_d
                     = Some (Inr (concat pages))
               \<and> no_boundary_repeat pages"
    by (simp add: script_download_binance_klines_def)
qed

lemma sample_klines_forward:
  "sample_klines s i t e = Some p \<Longrightarrow> c \<in> set p \<Longrightarrow> t \<le> open_time c"
  by (auto simp: sample_klines_def split: if_splits dest: in_set_takeD)

theorem klines_pagination_terminates_witness:
  "pagination (\<lambda>t. sample_klines ''BTCUSDT'' ''1d'' t 1700179200000) 1700179200000
       1699920000000 [take 2 sample_candles, drop 2 sample_candles]
   \<and> no_boundary_repeat [take 2 sample_candles, drop 2 sample_candles]
   \<and> klines_loop (\<lambda>t. sample_klines ''BTCUSDT'' ''1d'' t 1700179200000) 1700179200000 []
       1699920000000 = Some sample_candles
   \<and> download_binance_klines sample_host ''btcusdt'' ''1d'' ''2023-11-14'' ''2023-11-17''
       = Some (Inr sample_candles)
   \<and> script_download_binance_klines sample_host ''BTCUSDT'' ''1d'' ''2023-11-14'' ''2023-11-17''
       = Some (Inr sample_candles)"
proof -
  let ?request = "\<lambda>t. sample_klines ''BTCUSDT'' ''1d'' t 1700179200000"
  let ?pages = "[take 2 sample_candles, drop 2 sample_candles]"
  have forward: "\<forall>t p. ?request t = Some p \<longrightarrow> (\<forall>c \<in> set p. t \<le> open_time c)"
    using sample_klines_forward by blast
  have host: "\<forall>s i t e p. klines sample_host s i t e = Some p
      \<longrightarrow> (\<forall>c \<in> set p. t \<le> open_time c)"
    using sample_klines_forward by (simp add: sample_host_def)
  have page1: "sample_klines ''BTCUSDT'' ''1d'' 1699920000000 1700179200000
      = Some (take 2 sample_candles)" by code_simp
  have next1: "open_time (last (take 2 sample_candles)) + 1 = 1700006400001" by code_simp
  have page2: "sample_klines ''BTCUSDT'' ''1d'' 1700006400001 1700179200000
      = Some (drop 2 sample_candles)" by code_simp
  have next2: "open_time (last (drop 2 sample_candles)) + 1 = 1700092800001" by code_simp
  have page3: "sample_klines ''BTCUSDT'' ''1d'' 1700092800001 1700179200000 = Some []"
    by code_simp
  have rows: "take 2 sample_candles \<noteq> []" "drop 2 sample_candles \<noteq> []"
    by (simp_all add: sample_candles_def)
  have "pagination ?request 1700179200000 1700092800001 []"
    by (rule pagination.no_rows) (simp_all add: page3)
  then have last_page: "pagination ?request 1700179200000
      (open_time (last (drop 2 sample_candles)) + 1) []"
    by (simp only: next2)
  have "pagination ?request 1700179200000 1700006400001 [drop 2 sample_candles]"
    by (rule pagination.next_page[where request = ?request, OF _ page2 rows(2) last_page]) simp
  then have second_page: "pagination ?request 1700179200000
      (open_time (last (take 2 sample_candles)) + 1) [drop 2 sample_candles]"
    by (simp only: next1)
  have explicit: "pagination ?request 1700179200000 1699920000000 ?pages"
    by (rule pagination.next_page[where request = ?request, OF _ page1 rows(1) second_page]) simp
  have up: "upper ''btcusdt'' = ''BTCUSDT''" by code_simp
  have from_ts: "date_ms (tz sample_host) ''2023-11-14'' = Inr 1699920000000" by code_simp
  have to_ts: "date_ms (tz sample_host) ''2023-11-17'' = Inr 1700179200000" by code_simp
  have endpoint: "klines sample_host = sample_klines" by (simp add: sample_host_def)
  note claim = klines_pagination_terminates[where request = ?request and h = sample_host
      and interval = "''1d''" and start_d = "''2023-11-14''"
      and end_d = "''2023-11-17''" and cur = 1699920000000 and end_ts = 1700179200000]
  from claim explicit have unique: "\<And>ps. pagination ?request 1700179200000 1699920000000 ps
      \<Longrightarrow> ps = ?pages"
    by blast
  from claim forward obtain ps where
    ps: "pagination ?request 1700179200000 1699920000000 ps" and
    ps_run: "klines_loop ?request 1700179200000 [] 1699920000000 = Some (concat ps)" and
    ps_apart: "no_boundary_repeat ps"
    by blast
  from unique[OF ps] have ps_pages: "ps = ?pages" .
  from ps_run have loop: "klines_loop ?request 1700179200000 [] 1699920000000
      = Some sample_candles"
    by (simp add: ps_pages)
  from ps_apart have apart: "no_boundary_repeat ?pages"
    by (simp only: ps_pages)
  from claim[where sy = "''btcusdt''"] host from_ts to_ts obtain qs where
    qs: "pagination (\<lambda>t. klines sample_host (upper ''btcusdt'') ''1d'' t 1700179200000)
       1700179200000 1699920000000 qs" and
    qs_run: "download_binance_klines sample_host ''btcusdt'' ''1d'' ''2023-11-14'' ''2023-11-17''
       = Some (Inr (concat qs))"
    by blast
  from qs have "pagination ?request 1700179200000 1699920000000 qs"
    by (simp only: endpoint up)
  from unique[OF this] have qs_pages: "qs = ?pages" .
  from qs_run have fetched: "download_binance_klines sample_host ''btcusdt'' ''1d''
      ''2023-11-14'' ''2023-11-17'' = Some (Inr sample_candles)"
    by (simp add: qs_pages)
  from claim[where sy = "''BTCUSDT''"] host from_ts to_ts obtain rs where
    rs: "pagination (\<lambda>t. klines sample_host ''BTCUSDT'' ''1d'' t 1700179200000)
       1700179200000 1699920000000 rs" and
    rs_run: "script_download_binance_klines sample_host ''BTCUSDT'' ''1d'' ''2023-11-14''
       ''2023-11-17'' = Some (Inr (concat rs))"
    by blast
  from rs have "pagination ?request 1700179200000 1699920000000 rs"
    by (simp only: endpoint)
  from unique[OF this] have rs_pages: "rs = ?pages" .
  from rs_run have standalone: "script_download_binance_klines sample_host ''BTCUSDT'' ''1d''
      ''2023-11-14'' ''2023-11-17'' = Some (Inr sample_candles)"
    by (simp add: rs_pages)
  from explicit apart loop fetched standalone show ?thesis by blast
qed

section \<open>What an archive holds after a save\<close>





end
